theory Spec2Isabelle
  imports Main
begin

section \<open>The authentication service of MernAuthServer\<close>

text \<open>
  A shallow embedding of \<^verbatim>\<open>src/service/auth.service.ts\<close>. The three Mongoose collections
  are lists of documents, in insertion order, threaded through every operation as
  explicit state. An \<^verbatim>\<open>appAssert\<close> that fails is the value \<open>Inl (AppError status message)\<close>.
  What the service imports from modules that are not among the sources (hashing, token
  signing, the mailer, the mail templates, the configured origin) is a field of the
  record \<open>capabilities\<close>, so every theorem holds for every implementation of them. A call is modelled at one instant: every clock read made during the call
  returns the argument \<open>now\<close>, in milliseconds since the epoch.
\<close>

subsection \<open>Data model\<close>

type_synonym objectId = nat
type_synonym time = int

datatype http_status =
  CONFLICT | INTERNAL_SERVER_ERROR | NOT_FOUND | TOO_MANY_REQUESTS | UNAUTHORIZED

text \<open>
  What a call throws: the \<^verbatim>\<open>AppError\<close> of an \<^verbatim>\<open>appAssert\<close> that fails; the value an awaited
  store or mailer call rejected with; the \<^verbatim>\<open>TypeError\<close> of reading a property of
  \<^verbatim>\<open>null\<close> or \<^verbatim>\<open>undefined\<close>. \<open>RejectError m\<close> stands for an \<^verbatim>\<open>Error\<close> with the message
  \<open>m\<close> and for every other value that is neither \<^verbatim>\<open>null\<close> nor \<^verbatim>\<open>undefined\<close>: reading a
  property of such a value yields a value and does not throw.
\<close>

datatype rejection = RejectNull | RejectUndefined | RejectError string

datatype thrown = AppError http_status string | Rejected rejection | TypeError string

datatype VerificationCodeType = EmailVerification | PasswordReset

text \<open>
  Modelled from the spec: the three Mongoose schemas (\<^verbatim>\<open>models/user.model.ts\<close>,
  \<^verbatim>\<open>models/session.model.ts\<close>, \<^verbatim>\<open>models/verificationCode.model.ts\<close>) are not among the
  sources; the fields are the attributes the spec's data model lists, the field
  \<open>u_password\<close> holding the password hash.
\<close>

record user =
  u_id :: objectId
  u_email :: string
  u_password :: string
  u_verified :: bool
  u_createdAt :: time

record session =
  s_id :: objectId
  s_userId :: objectId
  s_userAgent :: "string option"
  s_expiresAt :: time
  s_createdAt :: time

record verification_code =
  c_id :: objectId
  c_userId :: objectId
  c_type :: VerificationCodeType
  c_expiresAt :: time
  c_createdAt :: time

record db =
  users :: "user list"
  sessions :: "session list"
  codes :: "verification_code list"
  nextId :: objectId

text \<open>Values handed back to the caller are JavaScript values; an object is its list of fields.\<close>

datatype jsval =
  JUndefined
  | JBool bool
  | JStr string
  | JId objectId
  | JDate time
  | JObj "(string \<times> jsval) list"

subsection \<open>Capabilities imported by the service\<close>

datatype token_payload =
  RefreshTokenPayload objectId
  | AccessTokenPayload objectId objectId

datatype sign_options = AccessTokenSignOptions | RefreshTokenSignOptions

datatype token_secret = AccessTokenSecret | RefreshTokenSecret

record mail_template =
  subject :: string
  text_body :: string
  html :: string

record mail_error =
  err_name :: string
  err_message :: string

text \<open>\<open>mail_data_id\<close> is \<^verbatim>\<open>data?.id\<close>: \<open>None\<close> when the mailer returned no \<^verbatim>\<open>data\<close>.\<close>

record mail_response =
  mail_data_id :: "string option"
  mail_error :: "mail_error option"

text \<open>
  The awaited calls of the \<^verbatim>\<open>try\<close> block of \<^verbatim>\<open>sendPasswordResetEmail\<close>. The field
  \<open>rejects\<close> of the capabilities says which of them reject, and with what; the
  \<^verbatim>\<open>catch\<close> clause of that operation is the one place where the service handles a
  rejection, and the one place where the model lets an awaited call reject.
\<close>

datatype awaited = Await_findOne | Await_countDocuments | Await_create | Await_sendMail

record capabilities =
  APP_ORIGIN :: string
  hashValue :: "string \<Rightarrow> string"
  compareValue :: "string \<Rightarrow> string \<Rightarrow> bool"
  signToken :: "token_payload \<Rightarrow> sign_options \<Rightarrow> string"
  verifyToken :: "string \<Rightarrow> token_secret \<Rightarrow> token_payload option"
  sendMail :: "string \<Rightarrow> mail_template \<Rightarrow> mail_response"
  getVerifyEmailTemplate :: "string \<Rightarrow> mail_template"
  getPasswordResetTemplate :: "string \<Rightarrow> mail_template"
  objectIdToString :: "objectId \<Rightarrow> string"
  rejects :: "awaited \<Rightarrow> rejection option"

fun sign_secret :: "sign_options \<Rightarrow> token_secret" where
  "sign_secret AccessTokenSignOptions = AccessTokenSecret"
| "sign_secret RefreshTokenSignOptions = RefreshTokenSecret"

text \<open>\<^verbatim>\<open>payload.sessionId\<close>: both payload shapes carry the field.\<close>

fun payload_sessionId :: "token_payload \<Rightarrow> objectId" where
  "payload_sessionId (RefreshTokenPayload sid) = sid"
| "payload_sessionId (AccessTokenPayload uid sid) = sid"

subsection \<open>Dates\<close>

text \<open>
  Modelled from the spec: \<^verbatim>\<open>utils/date.ts\<close> is not among the sources; the spec gives the
  24 hours of the renewal threshold, the 30 days of a session, the year of an
  email-verification code, the hour of a reset code and the 5 minutes of the throttle.
\<close>

definition ONE_DAY_MS :: int where
  "ONE_DAY_MS = 24 * 60 * 60 * 1000"

definition thirtyDaysFromNow :: "time \<Rightarrow> time" where
  "thirtyDaysFromNow now = now + 30 * 24 * 60 * 60 * 1000"

definition oneYearFromNow :: "time \<Rightarrow> time" where
  "oneYearFromNow now = now + 365 * 24 * 60 * 60 * 1000"

definition oneHourFromNow :: "time \<Rightarrow> time" where
  "oneHourFromNow now = now + 60 * 60 * 1000"

definition fiveMinutesAgo :: "time \<Rightarrow> time" where
  "fiveMinutesAgo now = now - 5 * 60 * 1000"

text \<open>A number inside a template string: its decimal digits, with a sign when negative.\<close>

function show_digits :: "int \<Rightarrow> string" where
  "show_digits i =
     (if i < 10 then [char_of (48 + i)]
      else show_digits (i div 10) @ [char_of (48 + i mod 10)])"
  by pat_completeness auto
termination
  by (relation "measure nat") auto

declare show_digits.simps [simp del]

definition show_int :: "int \<Rightarrow> string" where
  "show_int i = (if i < 0 then CHR ''-'' # show_digits (- i) else show_digits i)"

subsection \<open>Collections\<close>

text \<open>
  \<^verbatim>\<open>findOne\<close>, \<^verbatim>\<open>findById\<close> and \<^verbatim>\<open>exists\<close> are \<^const>\<open>find\<close> on the list of documents;
  \<^verbatim>\<open>countDocuments\<close> is the length of a \<^const>\<open>filter\<close>; \<^verbatim>\<open>deleteMany\<close> keeps the
  documents that do not match. An update or a \<^verbatim>\<open>deleteOne\<close> acts on the first match.
\<close>

fun updateOne :: "('a \<Rightarrow> bool) \<Rightarrow> ('a \<Rightarrow> 'a) \<Rightarrow> 'a list \<Rightarrow> 'a list" where
  "updateOne P f [] = []"
| "updateOne P f (x # xs) = (if P x then f x # xs else x # updateOne P f xs)"

fun deleteOne :: "('a \<Rightarrow> bool) \<Rightarrow> 'a list \<Rightarrow> 'a list" where
  "deleteOne P [] = []"
| "deleteOne P (x # xs) = (if P x then xs else x # deleteOne P xs)"

definition deleteMany :: "('a \<Rightarrow> bool) \<Rightarrow> 'a list \<Rightarrow> 'a list" where
  "deleteMany P xs = filter (\<lambda>x. \<not> P x) xs"

definition countDocuments :: "('a \<Rightarrow> bool) \<Rightarrow> 'a list \<Rightarrow> nat" where
  "countDocuments P xs = length (filter P xs)"

text \<open>
  \<^verbatim>\<open>Model.findByIdAndUpdate(id, update, { new })\<close>: no document with that id gives
  \<^verbatim>\<open>null\<close> and writes nothing; otherwise the document is updated in the collection and
  the call returns the updated document when \<^verbatim>\<open>new\<close> is set, the document as it was
  before the update when it is not (Mongoose's default).
\<close>

definition UserModel_findByIdAndUpdate ::
  "objectId \<Rightarrow> (user \<Rightarrow> user) \<Rightarrow> bool \<Rightarrow> user list \<Rightarrow> user option \<times> user list" where
  "UserModel_findByIdAndUpdate i f new us =
     (case find (\<lambda>u. u_id u = i) us of
        None \<Rightarrow> (None, us)
      | Some u \<Rightarrow> (Some (if new then f u else u), updateOne (\<lambda>u. u_id u = i) f us))"

text \<open>
  Modelled from the spec: what \<^verbatim>\<open>Model.create\<close> fills in is decided by the schemas, which
  are not among the sources. The store assigns the id (here the next unused number) and
  the creation time; a user is stored with the hash of the password and unverified; a
  session is given the 30 days the spec names as the long window.
\<close>

definition UserModel_create ::
  "capabilities \<Rightarrow> db \<Rightarrow> time \<Rightarrow> string \<Rightarrow> string \<Rightarrow> user \<times> db" where
  "UserModel_create caps d now em pw =
     (let u = \<lparr>u_id = nextId d, u_email = em, u_password = hashValue caps pw,
               u_verified = False, u_createdAt = now\<rparr>
      in (u, d\<lparr>users := users d @ [u], nextId := Suc (nextId d)\<rparr>))"

definition SessionModel_create ::
  "db \<Rightarrow> time \<Rightarrow> objectId \<Rightarrow> string option \<Rightarrow> session \<times> db" where
  "SessionModel_create d now uid ua =
     (let s = \<lparr>s_id = nextId d, s_userId = uid, s_userAgent = ua,
               s_expiresAt = thirtyDaysFromNow now, s_createdAt = now\<rparr>
      in (s, d\<lparr>sessions := sessions d @ [s], nextId := Suc (nextId d)\<rparr>))"

definition VerificationCodeModel_create ::
  "db \<Rightarrow> time \<Rightarrow> objectId \<Rightarrow> VerificationCodeType \<Rightarrow> time \<Rightarrow> verification_code \<times> db" where
  "VerificationCodeModel_create d now uid ty ex =
     (let c = \<lparr>c_id = nextId d, c_userId = uid, c_type = ty,
               c_expiresAt = ex, c_createdAt = now\<rparr>
      in (c, d\<lparr>codes := codes d @ [c], nextId := Suc (nextId d)\<rparr>))"

text \<open>
  Modelled from the spec: \<^verbatim>\<open>omitPassword\<close> is a method of the user schema, which is not
  among the sources; the spec says it returns the user with the password hash omitted.
  \<open>toObject\<close> is the document as a plain object.
\<close>

definition toObject :: "user \<Rightarrow> (string \<times> jsval) list" where
  "toObject u =
     [(''_id'', JId (u_id u)), (''email'', JStr (u_email u)),
      (''password'', JStr (u_password u)), (''verified'', JBool (u_verified u)),
      (''createdAt'', JDate (u_createdAt u))]"

definition omitPassword :: "user \<Rightarrow> jsval" where
  "omitPassword u = JObj (filter (\<lambda>(k, v). k \<noteq> ''password'') (toObject u))"

text \<open>Whether a returned value has a field of the given name, at any depth.\<close>

fun has_field :: "string \<Rightarrow> jsval \<Rightarrow> bool" where
  "has_field k (JObj fs) = (\<exists>kv \<in> set fs. fst kv = k \<or> has_field k (snd kv))"
| "has_field k _ = False"

subsection \<open>The six operations\<close>

text \<open>
  Each operation takes the capabilities, the database and the time of the call, and
  returns what the caller gets (\<open>Inl\<close> what is thrown, \<open>Inr\<close> the value returned)
  together with the database it leaves behind.
\<close>

type_synonym 'a outcome = "(thrown + 'a) \<times> db"

record account_params =
  p_email :: string
  p_password :: string
  p_userAgent :: "string option"

definition createAccount ::
  "capabilities \<Rightarrow> db \<Rightarrow> time \<Rightarrow> account_params \<Rightarrow> jsval outcome" where
  "createAccount caps d now data =
     (let existingUser = find (\<lambda>u. u_email u = p_email data) (users d) in
      if existingUser \<noteq> None then (Inl (AppError CONFLICT ''Email already in use''), d)
      else
        let (user, d1) = UserModel_create caps d now (p_email data) (p_password data);
            userId = u_id user;
            (verificationCode, d2) =
              VerificationCodeModel_create d1 now userId EmailVerification (oneYearFromNow now);
            url = APP_ORIGIN caps @ ''/email/verify/''
                    @ objectIdToString caps (c_id verificationCode);
            mailed = sendMail caps (u_email user) (getVerifyEmailTemplate caps url);
            (session, d3) = SessionModel_create d2 now userId (p_userAgent data);
            refreshToken =
              signToken caps (RefreshTokenPayload (s_id session)) RefreshTokenSignOptions;
            accessToken =
              signToken caps (AccessTokenPayload userId (s_id session)) AccessTokenSignOptions
        in (Inr (JObj [(''user'', omitPassword user),
                       (''accessToken'', JStr accessToken),
                       (''refreshToken'', JStr refreshToken)]), d3))"

text \<open>
  In \<^verbatim>\<open>loginUser\<close> the result of \<^verbatim>\<open>comparePassword\<close> is bound to \<^verbatim>\<open>isValid\<close> and the
  assertion that follows tests \<^verbatim>\<open>user\<close> a second time; both are kept as written.
\<close>

definition loginUser ::
  "capabilities \<Rightarrow> db \<Rightarrow> time \<Rightarrow> account_params \<Rightarrow> jsval outcome" where
  "loginUser caps d now p =
     (case find (\<lambda>u. u_email u = p_email p) (users d) of
        None \<Rightarrow> (Inl (AppError UNAUTHORIZED ''Invalid email or password''), d)
      | Some user \<Rightarrow>
          (let isValid = compareValue caps (p_password p) (u_password user) in
           if Some user = None
           then (Inl (AppError UNAUTHORIZED ''Invalid email or password''), d)
           else
             let userId = u_id user;
                 (session, d1) = SessionModel_create d now userId (p_userAgent p);
                 refreshToken =
                   signToken caps (RefreshTokenPayload (s_id session)) RefreshTokenSignOptions;
                 accessToken =
                   signToken caps (AccessTokenPayload (u_id user) (s_id session))
                     AccessTokenSignOptions
             in (Inr (JObj [(''user'', omitPassword user),
                            (''accessToken'', JStr accessToken),
                            (''refreshToken'', JStr refreshToken)]), d1)))"

definition refreshUserAccessToken ::
  "capabilities \<Rightarrow> db \<Rightarrow> time \<Rightarrow> string \<Rightarrow> jsval outcome" where
  "refreshUserAccessToken caps d now refreshToken =
     (case verifyToken caps refreshToken (sign_secret RefreshTokenSignOptions) of
        None \<Rightarrow> (Inl (AppError UNAUTHORIZED ''Invalid refresh token''), d)
      | Some payload \<Rightarrow>
          (case find (\<lambda>s. s_id s = payload_sessionId payload) (sessions d) of
             None \<Rightarrow> (Inl (AppError UNAUTHORIZED ''Session expired''), d)
           | Some session \<Rightarrow>
               if \<not> s_expiresAt session > now
               then (Inl (AppError UNAUTHORIZED ''Session expired''), d)
               else
                 let sessionNeedsRefresh = (s_expiresAt session - now \<le> ONE_DAY_MS);
                     d1 = (if sessionNeedsRefresh
                           then d\<lparr>sessions :=
                                    updateOne (\<lambda>s. s_id s = s_id session)
                                      (\<lambda>s. s\<lparr>s_expiresAt := thirtyDaysFromNow now\<rparr>)
                                      (sessions d)\<rparr>
                           else d);
                     newRefreshToken =
                       (if sessionNeedsRefresh
                        then JStr (signToken caps (RefreshTokenPayload (s_id session))
                                     RefreshTokenSignOptions)
                        else JUndefined);
                     accessToken =
                       signToken caps (AccessTokenPayload (s_userId session) (s_id session))
                         AccessTokenSignOptions
                 in (Inr (JObj [(''accessToken'', JStr accessToken),
                                (''newRefreshToken'', newRefreshToken)]), d1)))"

definition verifyEmail :: "db \<Rightarrow> time \<Rightarrow> objectId \<Rightarrow> jsval outcome" where
  "verifyEmail d now code =
     (case find (\<lambda>c. c_id c = code \<and> c_type c = EmailVerification \<and> c_expiresAt c > now)
             (codes d) of
        None \<Rightarrow> (Inl (AppError NOT_FOUND ''Invalid or expired verification code''), d)
      | Some validCode \<Rightarrow>
          (case UserModel_findByIdAndUpdate (c_userId validCode)
                  (\<lambda>u. u\<lparr>u_verified := True\<rparr>) True (users d) of
             (None, us) \<Rightarrow> (Inl (AppError INTERNAL_SERVER_ERROR ''Failed to verify email''), d)
           | (Some updatedUser, us) \<Rightarrow>
               (Inr (JObj [(''user'', omitPassword updatedUser)]),
                d\<lparr>users := us,
                  codes := deleteOne (\<lambda>c. c_id c = c_id validCode) (codes d)\<rparr>)))"

text \<open>
  The body of the \<^verbatim>\<open>try\<close> block of \<^verbatim>\<open>sendPasswordResetEmail\<close>. Each of its four
  awaited calls may reject, which throws the value it rejected with; a \<^verbatim>\<open>create\<close> that
  rejects stores nothing. A failed mail delivery is thrown after the code has been
  stored, so the error comes with the database that holds the new code. \<^verbatim>\<open>data?.id\<close>
  is falsy when there is no \<^verbatim>\<open>data\<close> and when the id is the empty string.
\<close>

definition sendPasswordResetEmail_try ::
  "capabilities \<Rightarrow> db \<Rightarrow> time \<Rightarrow> string \<Rightarrow> jsval outcome" where
  "sendPasswordResetEmail_try caps d now email =
     (case rejects caps Await_findOne of
        Some r \<Rightarrow> (Inl (Rejected r), d)
      | None \<Rightarrow>
     (case find (\<lambda>u. u_email u = email) (users d) of
        None \<Rightarrow> (Inl (AppError NOT_FOUND ''User not found''), d)
      | Some user \<Rightarrow>
          (let fiveMinAgo = fiveMinutesAgo now in
           case rejects caps Await_countDocuments of
             Some r \<Rightarrow> (Inl (Rejected r), d)
           | None \<Rightarrow>
          (let count = countDocuments
                         (\<lambda>c. c_userId c = u_id user \<and> c_type c = PasswordReset
                               \<and> c_createdAt c > fiveMinAgo) (codes d)
           in if \<not> count \<le> 1
              then (Inl (AppError TOO_MANY_REQUESTS
                           ''Too many requests, please try again later''), d)
              else
                let expiresAt = oneHourFromNow now in
                case rejects caps Await_create of
                  Some r \<Rightarrow> (Inl (Rejected r), d)
                | None \<Rightarrow>
                (let (verificationCode, d1) =
                      VerificationCodeModel_create d now (u_id user) PasswordReset expiresAt;
                    url = APP_ORIGIN caps @ ''/password/reset?code=''
                            @ objectIdToString caps (c_id verificationCode)
                            @ ''&exp='' @ show_int expiresAt
                 in case rejects caps Await_sendMail of
                      Some r \<Rightarrow> (Inl (Rejected r), d1)
                    | None \<Rightarrow>
                   (let mailed = sendMail caps email (getPasswordResetTemplate caps url)
                    in (case mail_data_id mailed of
                      Some i \<Rightarrow>
                        if i \<noteq> []
                        then (Inr (JObj [(''url'', JStr url), (''emailId'', JStr i)]), d1)
                        else (Inl (AppError INTERNAL_SERVER_ERROR
                                (case mail_error mailed of
                                   None \<Rightarrow> ''undefined - undefined''
                                 | Some e \<Rightarrow> err_name e @ '' - '' @ err_message e)), d1)
                    | None \<Rightarrow>
                        (Inl (AppError INTERNAL_SERVER_ERROR
                                (case mail_error mailed of
                                   None \<Rightarrow> ''undefined - undefined''
                                 | Some e \<Rightarrow> err_name e @ '' - '' @ err_message e)), d1))))))))"

text \<open>
  \<^verbatim>\<open>error.message\<close> in the \<^verbatim>\<open>catch\<close> clause: the message of what was caught, or the
  \<^verbatim>\<open>TypeError\<close> that reading a property of \<^verbatim>\<open>null\<close> or \<^verbatim>\<open>undefined\<close> throws.
\<close>

fun error_message :: "thrown \<Rightarrow> thrown + string" where
  "error_message (AppError st m) = Inr m"
| "error_message (TypeError m) = Inr m"
| "error_message (Rejected (RejectError m)) = Inr m"
| "error_message (Rejected RejectNull) =
     Inl (TypeError ''Cannot read properties of null (reading 'message')'')"
| "error_message (Rejected RejectUndefined) =
     Inl (TypeError ''Cannot read properties of undefined (reading 'message')'')"

text \<open>
  The \<^verbatim>\<open>catch\<close> clause logs the message of what it caught and returns the empty object;
  what the evaluation of \<^verbatim>\<open>error.message\<close> throws leaves the function.
\<close>

definition sendPasswordResetEmail ::
  "capabilities \<Rightarrow> db \<Rightarrow> time \<Rightarrow> string \<Rightarrow> jsval outcome" where
  "sendPasswordResetEmail caps d now email =
     (case sendPasswordResetEmail_try caps d now email of
        (Inr v, d1) \<Rightarrow> (Inr v, d1)
      | (Inl error, d1) \<Rightarrow>
          (case error_message error of
             Inr message \<Rightarrow> (Inr (JObj []), d1)
           | Inl type_error \<Rightarrow> (Inl type_error, d1)))"

record reset_password_params =
  r_password :: string
  r_verificationCode :: objectId

definition resetPassword ::
  "capabilities \<Rightarrow> db \<Rightarrow> time \<Rightarrow> reset_password_params \<Rightarrow> jsval outcome" where
  "resetPassword caps d now p =
     (case find (\<lambda>c. c_id c = r_verificationCode p \<and> c_type c = PasswordReset
                      \<and> c_expiresAt c > now) (codes d) of
        None \<Rightarrow> (Inl (AppError NOT_FOUND ''Invalid or expired verification code''), d)
      | Some validCode \<Rightarrow>
          (case UserModel_findByIdAndUpdate (c_userId validCode)
                  (\<lambda>u. u\<lparr>u_password := hashValue caps (r_password p)\<rparr>) False (users d) of
             (None, us) \<Rightarrow>
               (Inl (AppError INTERNAL_SERVER_ERROR ''Failed to reset password''), d)
           | (Some updatedUser, us) \<Rightarrow>
               (Inr (JObj [(''user'', omitPassword updatedUser)]),
                d\<lparr>users := us,
                  codes := deleteOne (\<lambda>c. c_id c = c_id validCode) (codes d),
                  sessions := deleteMany (\<lambda>s. s_userId s = c_userId validCode)
                                (sessions d)\<rparr>)))"

subsection \<open>Sequences of calls\<close>

text \<open>
  The service is driven one call at a time; a history is a list of calls, each with
  the time at which it is made, run from left to right on the database.
\<close>

datatype call =
  CreateAccount account_params
  | LoginUser account_params
  | RefreshUserAccessToken string
  | VerifyEmail objectId
  | SendPasswordResetEmail string
  | ResetPassword reset_password_params

fun perform :: "capabilities \<Rightarrow> db \<Rightarrow> time \<Rightarrow> call \<Rightarrow> jsval outcome" where
  "perform caps d now (CreateAccount p) = createAccount caps d now p"
| "perform caps d now (LoginUser p) = loginUser caps d now p"
| "perform caps d now (RefreshUserAccessToken t) = refreshUserAccessToken caps d now t"
| "perform caps d now (VerifyEmail c) = verifyEmail d now c"
| "perform caps d now (SendPasswordResetEmail e) = sendPasswordResetEmail caps d now e"
| "perform caps d now (ResetPassword p) = resetPassword caps d now p"

fun run :: "capabilities \<Rightarrow> db \<Rightarrow> (time \<times> call) list \<Rightarrow> db" where
  "run caps d [] = d"
| "run caps d (tc # tcs) = run caps (snd (perform caps d (fst tc) (snd tc))) tcs"

subsection \<open>Invariants of the ids\<close>

text \<open>
  The ids of the sessions, and likewise of the codes, are unique and below the next id
  the store will assign. Both hold of the empty database and after every call.
\<close>

definition session_ids_fresh :: "db \<Rightarrow> bool" where
  "session_ids_fresh d \<longleftrightarrow>
     distinct (map s_id (sessions d)) \<and> (\<forall>s \<in> set (sessions d). s_id s < nextId d)"

definition code_ids_fresh :: "db \<Rightarrow> bool" where
  "code_ids_fresh d \<longleftrightarrow>
     distinct (map c_id (codes d)) \<and> (\<forall>c \<in> set (codes d). c_id c < nextId d)"

text \<open>
  What one call may do to the sessions: nothing, append one with a new id, delete those
  of one user, or change the expiry of the first session with some id, which was live.
\<close>

definition sessions_step :: "time \<Rightarrow> db \<Rightarrow> db \<Rightarrow> bool" where
  "sessions_step now d d' \<longleftrightarrow>
     nextId d \<le> nextId d'
     \<and> (sessions d' = sessions d
        \<or> (\<exists>new. sessions d' = sessions d @ [new] \<and> nextId d \<le> s_id new \<and> s_id new < nextId d')
        \<or> (\<exists>uid. sessions d' = filter (\<lambda>s. s_userId s \<noteq> uid) (sessions d))
        \<or> (\<exists>s pre post e. now < s_expiresAt s
               \<and> sessions d = pre @ s # post \<and> (\<forall>x \<in> set pre. s_id x \<noteq> s_id s)
               \<and> sessions d' = pre @ s\<lparr>s_expiresAt := e\<rparr> # post))"

text \<open>
  The session \<open>s\<close> is pinned in \<open>d\<close>: its id has been assigned, and whatever is stored
  under that id is \<open>s\<close> itself.
\<close>

definition pinned :: "session \<Rightarrow> db \<Rightarrow> bool" where
  "pinned s d \<longleftrightarrow>
     session_ids_fresh d \<and> s_id s < nextId d
     \<and> (\<forall>x \<in> set (sessions d). s_id x = s_id s \<longrightarrow> x = s)"

subsection \<open>A concrete installation\<close>

text \<open>
  One implementation of the capabilities, in which no awaited call rejects, and one
  database, on which the theorems below are instantiated: a user with three sessions
  (23 hours from expiry, 48 hours from expiry, and expiring at this very millisecond),
  an email-verification code and a password-reset code; variants of both; and two
  histories.
\<close>

definition demo_caps :: capabilities where
  "demo_caps =
     \<lparr>APP_ORIGIN = ''http://localhost:5173'',
      hashValue = (\<lambda>v. ''hash:'' @ v),
      compareValue = (\<lambda>v h. ''hash:'' @ v = h),
      signToken = (\<lambda>p opts. case p of
          RefreshTokenPayload sid \<Rightarrow> ''R'' @ show_int (int sid)
        | AccessTokenPayload uid sid \<Rightarrow> ''A'' @ show_int (int uid) @ ''.'' @ show_int (int sid)),
      verifyToken = (\<lambda>t sec.
          if sec = RefreshTokenSecret
          then map_option RefreshTokenPayload (find (\<lambda>n. ''R'' @ show_int (int n) = t) [0..<10])
          else None),
      sendMail = (\<lambda>to tpl. \<lparr>mail_data_id = Some ''mail-1'', mail_error = None\<rparr>),
      getVerifyEmailTemplate =
        (\<lambda>url. \<lparr>subject = ''Verify Email Address'', text_body = url, html = url\<rparr>),
      getPasswordResetTemplate =
        (\<lambda>url. \<lparr>subject = ''Password Reset Request'', text_body = url, html = url\<rparr>),
      objectIdToString = (\<lambda>i. show_int (int i)),
      rejects = (\<lambda>a. None)\<rparr>"

definition demo_now :: time where
  "demo_now = 1700000000000"

definition alice :: user where
  "alice = \<lparr>u_id = 1, u_email = ''a@x.com'', u_password = ''hash:pw1'',
            u_verified = False, u_createdAt = 1690000000000\<rparr>"

definition session_23h :: session where
  "session_23h = \<lparr>s_id = 2, s_userId = 1, s_userAgent = Some ''Mozilla/5.0'',
                  s_expiresAt = 1700000000000 + 23 * 60 * 60 * 1000,
                  s_createdAt = 1690000000000\<rparr>"

definition session_48h :: session where
  "session_48h = \<lparr>s_id = 3, s_userId = 1, s_userAgent = None,
                  s_expiresAt = 1700000000000 + 48 * 60 * 60 * 1000,
                  s_createdAt = 1690000000000\<rparr>"

definition session_expired :: session where
  "session_expired = \<lparr>s_id = 4, s_userId = 1, s_userAgent = None,
                      s_expiresAt = 1700000000000, s_createdAt = 1690000000000\<rparr>"

definition email_code :: verification_code where
  "email_code = \<lparr>c_id = 5, c_userId = 1, c_type = EmailVerification,
                 c_expiresAt = 1721536000000, c_createdAt = 1690000000000\<rparr>"

definition reset_code :: verification_code where
  "reset_code = \<lparr>c_id = 6, c_userId = 1, c_type = PasswordReset,
                 c_expiresAt = 1700003000000, c_createdAt = 1699999400000\<rparr>"

definition demo_db :: db where
  "demo_db = \<lparr>users = [alice],
              sessions = [session_23h, session_48h, session_expired],
              codes = [email_code, reset_code],
              nextId = 7\<rparr>"


definition orphan_code :: verification_code where
  "orphan_code = \<lparr>c_id = 7, c_userId = 8, c_type = PasswordReset,
                  c_expiresAt = 1700003000000, c_createdAt = 1699999400000\<rparr>"

definition orphan_db :: db where
  "orphan_db = \<lparr>users = [alice], sessions = [session_23h], codes = [orphan_code],
                nextId = 9\<rparr>"



definition verified_db :: db where
  "verified_db = demo_db\<lparr>users := [alice\<lparr>u_verified := True\<rparr>], codes := [reset_code]\<rparr>"

definition reset_history :: "(time \<times> call) list" where
  "reset_history =
     [(1700000000000, SendPasswordResetEmail ''a@x.com''),
      (1700000001000, SendPasswordResetEmail ''a@x.com''),
      (1700000002000, ResetPassword \<lparr>r_password = ''pw2'', r_verificationCode = 7\<rparr>),
      (1700000003000, SendPasswordResetEmail ''a@x.com'')]"

definition expiry_history :: "(time \<times> call) list" where
  "expiry_history =
     [(1700000000000, RefreshUserAccessToken ''R4''),
      (1700000001000,
       LoginUser \<lparr>p_email = ''a@x.com'', p_password = ''pw1'', p_userAgent = None\<rparr>),
      (1700000002000, RefreshUserAccessToken ''R2''),
      (1700000003000, RefreshUserAccessToken ''R4'')]"

lemmas demo_defs =
  demo_caps_def demo_now_def alice_def session_23h_def session_48h_def
  session_expired_def email_code_def reset_code_def demo_db_def

section \<open>Properties\<close>

subsection \<open>Facts about the collections\<close>

lemma find_Some_D: "find P xs = Some x \<Longrightarrow> x \<in> set xs \<and> P x"
  by (induction xs) (auto split: if_splits)

lemma find_updateOne_same:
  "find P xs = Some x \<Longrightarrow> P (f x) \<Longrightarrow> find P (updateOne P f xs) = Some (f x)"
  by (induction xs) (auto split: if_splits)

lemma updateOne_None: "find P xs = None \<Longrightarrow> updateOne P f xs = xs"
  by (induction xs) (auto split: if_splits)

lemma updateOne_split:
  "find P xs = Some x \<Longrightarrow>
   \<exists>pre post. xs = pre @ x # post \<and> (\<forall>y \<in> set pre. \<not> P y)
     \<and> updateOne P f xs = pre @ f x # post"
proof (induction xs)
  case Nil
  then show ?case by simp
next
  case (Cons a xs)
  show ?case
  proof (cases "P a")
    case True
    with Cons.prems have "a = x" by simp
    with True show ?thesis by (intro exI [of _ "[]"] exI [of _ xs]) simp
  next
    case False
    with Cons obtain pre post where
      "xs = pre @ x # post" "\<forall>y \<in> set pre. \<not> P y" "updateOne P f xs = pre @ f x # post"
      by auto
    with False show ?thesis
      by (intro exI [of _ "a # pre"] exI [of _ post]) simp
  qed
qed

lemma deleteOne_distinct:
  "distinct (map f xs) \<Longrightarrow> deleteOne (\<lambda>y. f y = k) xs = filter (\<lambda>y. f y \<noteq> k) xs"
proof (induction xs)
  case Nil
  then show ?case by simp
next
  case (Cons x xs)
  show ?case
  proof (cases "f x = k")
    case True
    with Cons.prems have "k \<notin> f ` set xs" by simp
    then have "\<forall>y \<in> set xs. f y \<noteq> k" by blast
    then have "filter (\<lambda>y. f y \<noteq> k) xs = xs" by simp
    with True show ?thesis by simp
  next
    case False
    with Cons show ?thesis by simp
  qed
qed

lemma find_distinct:
  "distinct (map f xs) \<Longrightarrow> x \<in> set xs \<Longrightarrow> P x \<Longrightarrow> (\<And>y. P y \<Longrightarrow> f y = f x)
   \<Longrightarrow> find P xs = Some x"
proof (induction xs)
  case Nil
  then show ?case by simp
next
  case (Cons a xs)
  show ?case
  proof (cases "P a")
    case True
    then have "f a = f x" by (rule Cons.prems(4))
    with Cons.prems(1,2) have "a = x" by force
    with True show ?thesis by simp
  next
    case False
    with Cons.prems(2,3) have "x \<in> set xs" by auto
    moreover from Cons.prems(1) have "distinct (map f xs)" by simp
    ultimately have "find P xs = Some x"
      using Cons.prems(3,4) by (intro Cons.IH)
    with False show ?thesis by simp
  qed
qed

lemma set_deleteOne: "set (deleteOne P xs) \<subseteq> set xs"
  by (induction xs) auto

lemma distinct_map_deleteOne: "distinct (map f xs) \<Longrightarrow> distinct (map f (deleteOne P xs))"
proof (induction xs)
  case Nil
  then show ?case by simp
next
  case (Cons x xs)
  have "f x \<notin> f ` set (deleteOne P xs)"
    using Cons.prems set_deleteOne [of P xs] by auto
  with Cons show ?case by simp
qed

subsection \<open>Login\<close>

lemma loginUser_stored_user:
  assumes "find (\<lambda>u. u_email u = p_email p) (users d) = Some u"
  shows "loginUser caps d now p =
     (Inr (JObj [(''user'', omitPassword u),
                 (''accessToken'',
                  JStr (signToken caps (AccessTokenPayload (u_id u) (nextId d))
                         AccessTokenSignOptions)),
                 (''refreshToken'',
                  JStr (signToken caps (RefreshTokenPayload (nextId d))
                         RefreshTokenSignOptions))]),
      d\<lparr>sessions := sessions d @
            [\<lparr>s_id = nextId d, s_userId = u_id u, s_userAgent = p_userAgent p,
              s_expiresAt = thirtyDaysFromNow now, s_createdAt = now\<rparr>],
        nextId := Suc (nextId d)\<rparr>)"
  using assms by (simp add: loginUser_def SessionModel_create_def Let_def)

text \<open>
  Claim C1. The claim asks that a stored user's email with a password that does not
  match the stored hash be refused with Unauthorized and that no session be created.
  Evaluated on the stored user \<open>alice\<close> and the password \<^verbatim>\<open>wrong\<close>, which
  \<open>compareValue\<close> rejects against her hash, \<open>loginUser\<close> returns the user and a pair
  of tokens and stores a new session.
\<close>

theorem loginUser_wrong_password_accepted:
  "find (\<lambda>u. u_email u = ''a@x.com'') (users demo_db) = Some alice
   \<and> \<not> compareValue demo_caps ''wrong'' (u_password alice)
   \<and> loginUser demo_caps demo_db demo_now
        \<lparr>p_email = ''a@x.com'', p_password = ''wrong'', p_userAgent = None\<rparr>
       = (Inr (JObj [(''user'',
                      JObj [(''_id'', JId 1), (''email'', JStr ''a@x.com''),
                            (''verified'', JBool False), (''createdAt'', JDate 1690000000000)]),
                     (''accessToken'', JStr ''A1.7''),
                     (''refreshToken'', JStr ''R7'')]),
          demo_db\<lparr>sessions := sessions demo_db @
                     [\<lparr>s_id = 7, s_userId = 1, s_userAgent = None,
                       s_expiresAt = 1702592000000, s_createdAt = 1700000000000\<rparr>],
                   nextId := 8\<rparr>)"
  by code_simp

subsection \<open>Password-reset completion\<close>

lemma omitPassword_password_update: "omitPassword (u\<lparr>u_password := h\<rparr>) = omitPassword u"
  by (simp add: omitPassword_def toObject_def)

text \<open>
  Claim C2, as stated, on a reset code of type PasswordReset that has not expired but
  whose \<open>userId\<close> is the id of no stored user: \<open>resetPassword\<close> fails with
  InternalError and the message \<^verbatim>\<open>Failed to reset password\<close>.
\<close>

theorem resetPassword_user_missing:
  "orphan_code \<in> set (codes orphan_db)
   \<and> c_type orphan_code = PasswordReset
   \<and> demo_now < c_expiresAt orphan_code
   \<and> resetPassword demo_caps orphan_db demo_now
        \<lparr>r_password = ''pw2'', r_verificationCode = c_id orphan_code\<rparr>
       = (Inl (AppError INTERNAL_SERVER_ERROR ''Failed to reset password''), orphan_db)"
  by code_simp

text \<open>
  Claim C2, amended. In a collection of codes with unique ids, take a stored code of
  type PasswordReset with \<open>expiresAt > now\<close>. When its \<open>userId\<close> is the id of a stored
  user, \<open>resetPassword\<close> with the code's id and a new password returns that user with
  the new hash in place and the password field omitted, stores the hash of the new
  password for that user, deletes the code and nothing else from the codes, and deletes
  exactly the sessions of that user. When no stored user has that id, it fails with
  InternalError and changes nothing. (The document \<^verbatim>\<open>findByIdAndUpdate\<close> hands back here
  is the one from before the update; the two differ in the password only, which
  \<open>omitPassword\<close> removes.)
\<close>

theorem resetPassword_valid_code:
  assumes "distinct (map c_id (codes d))"
    and "c \<in> set (codes d)" and "c_type c = PasswordReset" and "now < c_expiresAt c"
  shows "(find (\<lambda>x. u_id x = c_userId c) (users d) = Some u \<longrightarrow>
           fst (resetPassword caps d now \<lparr>r_password = pw, r_verificationCode = c_id c\<rparr>)
             = Inr (JObj [(''user'', omitPassword (u\<lparr>u_password := hashValue caps pw\<rparr>))])
           \<and> find (\<lambda>x. u_id x = c_userId c)
                (users (snd (resetPassword caps d now
                   \<lparr>r_password = pw, r_verificationCode = c_id c\<rparr>)))
               = Some (u\<lparr>u_password := hashValue caps pw\<rparr>)
           \<and> codes (snd (resetPassword caps d now
                   \<lparr>r_password = pw, r_verificationCode = c_id c\<rparr>))
               = filter (\<lambda>x. x \<noteq> c) (codes d)
           \<and> sessions (snd (resetPassword caps d now
                   \<lparr>r_password = pw, r_verificationCode = c_id c\<rparr>))
               = filter (\<lambda>s. s_userId s \<noteq> c_userId c) (sessions d))
       \<and> (find (\<lambda>x. u_id x = c_userId c) (users d) = None \<longrightarrow>
           resetPassword caps d now \<lparr>r_password = pw, r_verificationCode = c_id c\<rparr>
             = (Inl (AppError INTERNAL_SERVER_ERROR ''Failed to reset password''), d))"
proof -
  let ?p = "\<lparr>r_password = pw, r_verificationCode = c_id c\<rparr>"
  have found: "find (\<lambda>x. c_id x = r_verificationCode ?p \<and> c_type x = PasswordReset
                       \<and> c_expiresAt x > now) (codes d) = Some c"
    using assms by (intro find_distinct [where f = c_id]) simp_all
  have same: "filter (\<lambda>x. c_id x \<noteq> c_id c) (codes d) = filter (\<lambda>x. x \<noteq> c) (codes d)"
  proof (rule filter_cong [OF refl])
    fix x assume "x \<in> set (codes d)"
    with assms(1,2) show "(c_id x \<noteq> c_id c) = (x \<noteq> c)"
      by (auto simp: distinct_map inj_on_def)
  qed
  have missing: "resetPassword caps d now ?p
             = (Inl (AppError INTERNAL_SERVER_ERROR ''Failed to reset password''), d)"
    if "find (\<lambda>x. u_id x = c_userId c) (users d) = None"
    using that found by (simp add: resetPassword_def UserModel_findByIdAndUpdate_def)
  have present: "resetPassword caps d now ?p
      = (Inr (JObj [(''user'', omitPassword u)]),
         d\<lparr>users := updateOne (\<lambda>x. u_id x = c_userId c)
                       (\<lambda>x. x\<lparr>u_password := hashValue caps pw\<rparr>) (users d),
           codes := deleteOne (\<lambda>x. c_id x = c_id c) (codes d),
           sessions := deleteMany (\<lambda>s. s_userId s = c_userId c) (sessions d)\<rparr>)"
    if "find (\<lambda>x. u_id x = c_userId c) (users d) = Some u"
    using that found by (simp add: resetPassword_def UserModel_findByIdAndUpdate_def)
  have upd: "find (\<lambda>x. u_id x = c_userId c)
               (updateOne (\<lambda>x. u_id x = c_userId c)
                  (\<lambda>x. x\<lparr>u_password := hashValue caps pw\<rparr>) (users d))
             = Some (u\<lparr>u_password := hashValue caps pw\<rparr>)"
    if "find (\<lambda>x. u_id x = c_userId c) (users d) = Some u"
    using that find_Some_D [OF that] by (intro find_updateOne_same) simp_all
  have codes_eq: "deleteOne (\<lambda>x. c_id x = c_id c) (codes d) = filter (\<lambda>x. x \<noteq> c) (codes d)"
    using assms(1) same by (simp add: deleteOne_distinct)
  have ok: "fst (resetPassword caps d now ?p)
             = Inr (JObj [(''user'', omitPassword (u\<lparr>u_password := hashValue caps pw\<rparr>))])
           \<and> find (\<lambda>x. u_id x = c_userId c) (users (snd (resetPassword caps d now ?p)))
               = Some (u\<lparr>u_password := hashValue caps pw\<rparr>)
           \<and> codes (snd (resetPassword caps d now ?p)) = filter (\<lambda>x. x \<noteq> c) (codes d)
           \<and> sessions (snd (resetPassword caps d now ?p))
               = filter (\<lambda>s. s_userId s \<noteq> c_userId c) (sessions d)"
    if u: "find (\<lambda>x. u_id x = c_userId c) (users d) = Some u"
    unfolding present [OF u]
    by (simp add: upd [OF u] codes_eq omitPassword_password_update deleteMany_def)
  show ?thesis
  proof (rule conjI)
    show "find (\<lambda>x. u_id x = c_userId c) (users d) = Some u \<longrightarrow>
           fst (resetPassword caps d now ?p)
             = Inr (JObj [(''user'', omitPassword (u\<lparr>u_password := hashValue caps pw\<rparr>))])
           \<and> find (\<lambda>x. u_id x = c_userId c) (users (snd (resetPassword caps d now ?p)))
               = Some (u\<lparr>u_password := hashValue caps pw\<rparr>)
           \<and> codes (snd (resetPassword caps d now ?p)) = filter (\<lambda>x. x \<noteq> c) (codes d)
           \<and> sessions (snd (resetPassword caps d now ?p))
               = filter (\<lambda>s. s_userId s \<noteq> c_userId c) (sessions d)"
      by (rule impI) (rule ok)
    show "find (\<lambda>x. u_id x = c_userId c) (users d) = None \<longrightarrow>
           resetPassword caps d now ?p
             = (Inl (AppError INTERNAL_SERVER_ERROR ''Failed to reset password''), d)"
      by (rule impI) (rule missing)
  qed
qed

theorem resetPassword_valid_code_witness:
  "distinct (map c_id (codes demo_db))
   \<and> reset_code \<in> set (codes demo_db)
   \<and> c_type reset_code = PasswordReset
   \<and> demo_now < c_expiresAt reset_code
   \<and> find (\<lambda>x. u_id x = c_userId reset_code) (users demo_db) = Some alice
   \<and> fst (resetPassword demo_caps demo_db demo_now
            \<lparr>r_password = ''pw2'', r_verificationCode = c_id reset_code\<rparr>)
       = Inr (JObj [(''user'',
                      JObj [(''_id'', JId 1), (''email'', JStr ''a@x.com''),
                            (''verified'', JBool False), (''createdAt'', JDate 1690000000000)])])
   \<and> find (\<lambda>x. u_id x = 1)
         (users (snd (resetPassword demo_caps demo_db demo_now
            \<lparr>r_password = ''pw2'', r_verificationCode = c_id reset_code\<rparr>)))
       = Some (alice\<lparr>u_password := ''hash:pw2''\<rparr>)
   \<and> codes (snd (resetPassword demo_caps demo_db demo_now
            \<lparr>r_password = ''pw2'', r_verificationCode = c_id reset_code\<rparr>)) = [email_code]
   \<and> sessions (snd (resetPassword demo_caps demo_db demo_now
            \<lparr>r_password = ''pw2'', r_verificationCode = c_id reset_code\<rparr>)) = []"
proof -
  have h: "distinct (map c_id (codes demo_db))" "reset_code \<in> set (codes demo_db)"
    "c_type reset_code = PasswordReset" "demo_now < c_expiresAt reset_code"
    by (simp_all add: demo_defs)
  have u: "find (\<lambda>x. u_id x = c_userId reset_code) (users demo_db) = Some alice"
    by (simp add: demo_defs)
  have v: "omitPassword (alice\<lparr>u_password := hashValue demo_caps ''pw2''\<rparr>)
       = JObj [(''_id'', JId 1), (''email'', JStr ''a@x.com''),
                            (''verified'', JBool False), (''createdAt'', JDate 1690000000000)]"
    "hashValue demo_caps ''pw2'' = ''hash:pw2''"
    "filter (\<lambda>x. x \<noteq> reset_code) (codes demo_db) = [email_code]"
    "filter (\<lambda>s. s_userId s \<noteq> c_userId reset_code) (sessions demo_db) = []"
    "c_userId reset_code = 1"
    by (simp_all add: demo_defs omitPassword_def toObject_def)
  show ?thesis
    using resetPassword_valid_code [OF h, of alice demo_caps "''pw2''"] h u v
    by simp
qed

subsection \<open>Token refresh\<close>

lemma refresh_accepts:
  assumes "verifyToken caps tok RefreshTokenSecret = Some payload"
    and "find (\<lambda>x. s_id x = payload_sessionId payload) (sessions d) = Some s"
    and "now < s_expiresAt s"
  shows "refreshUserAccessToken caps d now tok =
     (if s_expiresAt s - now \<le> ONE_DAY_MS
      then (Inr (JObj [(''accessToken'',
                        JStr (signToken caps (AccessTokenPayload (s_userId s) (s_id s))
                               AccessTokenSignOptions)),
                       (''newRefreshToken'',
                        JStr (signToken caps (RefreshTokenPayload (s_id s))
                               RefreshTokenSignOptions))]),
            d\<lparr>sessions := updateOne (\<lambda>x. s_id x = s_id s)
                              (\<lambda>x. x\<lparr>s_expiresAt := thirtyDaysFromNow now\<rparr>) (sessions d)\<rparr>)
      else (Inr (JObj [(''accessToken'',
                        JStr (signToken caps (AccessTokenPayload (s_userId s) (s_id s))
                               AccessTokenSignOptions)),
                       (''newRefreshToken'', JUndefined)]), d))"
  using assms by (simp add: refreshUserAccessToken_def Let_def)

lemma refresh_rejects:
  assumes "verifyToken caps tok RefreshTokenSecret = Some payload"
    and "find (\<lambda>x. s_id x = payload_sessionId payload) (sessions d) = None
         \<or> (\<exists>s. find (\<lambda>x. s_id x = payload_sessionId payload) (sessions d) = Some s
                \<and> s_expiresAt s \<le> now)"
  shows "refreshUserAccessToken caps d now tok
           = (Inl (AppError UNAUTHORIZED ''Session expired''), d)"
  using assms by (auto simp add: refreshUserAccessToken_def)

lemma demo_verify_R2:
  "verifyToken demo_caps ''R2'' RefreshTokenSecret = Some (RefreshTokenPayload 2)"
  by code_simp

lemma demo_verify_R3:
  "verifyToken demo_caps ''R3'' RefreshTokenSecret = Some (RefreshTokenPayload 3)"
  by code_simp

lemma demo_verify_R4:
  "verifyToken demo_caps ''R4'' RefreshTokenSecret = Some (RefreshTokenPayload 4)"
  by code_simp

lemma demo_verify_R9:
  "verifyToken demo_caps ''R9'' RefreshTokenSecret = Some (RefreshTokenPayload 9)"
  by code_simp

lemma demo_find_2:
  "find (\<lambda>x. s_id x = payload_sessionId (RefreshTokenPayload 2)) (sessions demo_db)
     = Some session_23h"
  by (simp add: demo_defs)

lemma demo_find_3:
  "find (\<lambda>x. s_id x = payload_sessionId (RefreshTokenPayload 3)) (sessions demo_db)
     = Some session_48h"
  by (simp add: demo_defs)

text \<open>
  Claim C3. A refresh token that verifies and names a stored session that expires after
  \<open>now\<close>: when the session has at most 24 hours left, the stored session gets the expiry
  \<open>now\<close> plus 30 days and the result carries a new refresh token signed for the same
  session id; when it has more than 24 hours left, the database is left as it was and
  \<^verbatim>\<open>newRefreshToken\<close> is \<^verbatim>\<open>undefined\<close>. Both results carry an access token signed for the
  session's user id and session id.
\<close>

theorem refreshUserAccessToken_sliding_window:
  assumes "verifyToken caps tok RefreshTokenSecret = Some payload"
    and "find (\<lambda>x. s_id x = payload_sessionId payload) (sessions d) = Some s"
    and "now < s_expiresAt s"
  shows "(s_expiresAt s - now \<le> 24 * 60 * 60 * 1000 \<longrightarrow>
            fst (refreshUserAccessToken caps d now tok) =
              Inr (JObj [(''accessToken'',
                          JStr (signToken caps
                                 (AccessTokenPayload (s_userId s) (payload_sessionId payload))
                                 AccessTokenSignOptions)),
                         (''newRefreshToken'',
                          JStr (signToken caps (RefreshTokenPayload (payload_sessionId payload))
                                 RefreshTokenSignOptions))])
          \<and> find (\<lambda>x. s_id x = payload_sessionId payload)
                (sessions (snd (refreshUserAccessToken caps d now tok)))
              = Some (s\<lparr>s_expiresAt := now + 30 * 24 * 60 * 60 * 1000\<rparr>))
       \<and> (s_expiresAt s - now > 24 * 60 * 60 * 1000 \<longrightarrow>
            refreshUserAccessToken caps d now tok =
              (Inr (JObj [(''accessToken'',
                           JStr (signToken caps
                                  (AccessTokenPayload (s_userId s) (payload_sessionId payload))
                                  AccessTokenSignOptions)),
                          (''newRefreshToken'', JUndefined)]), d))"
proof -
  from assms(2) have sid: "s_id s = payload_sessionId payload"
    using find_Some_D by fastforce
  have upd: "find (\<lambda>x. s_id x = s_id s)
           (updateOne (\<lambda>x. s_id x = s_id s)
              (\<lambda>x. x\<lparr>s_expiresAt := thirtyDaysFromNow now\<rparr>) (sessions d))
         = Some (s\<lparr>s_expiresAt := thirtyDaysFromNow now\<rparr>)"
    using assms(2) sid by (intro find_updateOne_same) simp_all
  show ?thesis
    using refresh_accepts [OF assms] upd sid
    by (simp add: ONE_DAY_MS_def thirtyDaysFromNow_def)
qed

theorem refreshUserAccessToken_sliding_window_witness:
  "verifyToken demo_caps ''R2'' RefreshTokenSecret = Some (RefreshTokenPayload 2)
   \<and> find (\<lambda>x. s_id x = payload_sessionId (RefreshTokenPayload 2)) (sessions demo_db)
       = Some session_23h
   \<and> demo_now < s_expiresAt session_23h
   \<and> s_expiresAt session_23h - demo_now \<le> 24 * 60 * 60 * 1000
   \<and> fst (refreshUserAccessToken demo_caps demo_db demo_now ''R2'')
       = Inr (JObj [(''accessToken'', JStr ''A1.2''), (''newRefreshToken'', JStr ''R2'')])
   \<and> find (\<lambda>x. s_id x = 2)
         (sessions (snd (refreshUserAccessToken demo_caps demo_db demo_now ''R2'')))
       = Some (session_23h\<lparr>s_expiresAt := 1702592000000\<rparr>)
   \<and> verifyToken demo_caps ''R3'' RefreshTokenSecret = Some (RefreshTokenPayload 3)
   \<and> find (\<lambda>x. s_id x = payload_sessionId (RefreshTokenPayload 3)) (sessions demo_db)
       = Some session_48h
   \<and> demo_now < s_expiresAt session_48h
   \<and> s_expiresAt session_48h - demo_now > 24 * 60 * 60 * 1000
   \<and> refreshUserAccessToken demo_caps demo_db demo_now ''R3''
       = (Inr (JObj [(''accessToken'', JStr ''A1.3''), (''newRefreshToken'', JUndefined)]),
          demo_db)"
proof -
  have a: "demo_now < s_expiresAt session_23h"
    "s_expiresAt session_23h - demo_now \<le> 24 * 60 * 60 * 1000"
    by (simp_all add: demo_defs)
  have b: "demo_now < s_expiresAt session_48h"
    "s_expiresAt session_48h - demo_now > 24 * 60 * 60 * 1000"
    by (simp_all add: demo_defs)
  have sg: "signToken demo_caps (AccessTokenPayload 1 2) AccessTokenSignOptions = ''A1.2''"
    "signToken demo_caps (RefreshTokenPayload 2) RefreshTokenSignOptions = ''R2''"
    "signToken demo_caps (AccessTokenPayload 1 3) AccessTokenSignOptions = ''A1.3''"
    by code_simp+
  have f: "s_userId session_23h = 1" "s_userId session_48h = 1"
    by (simp_all add: demo_defs)
  show ?thesis
    using refreshUserAccessToken_sliding_window [OF demo_verify_R2 demo_find_2 a(1)]
      refreshUserAccessToken_sliding_window [OF demo_verify_R3 demo_find_3 b(1)]
      a b sg f demo_verify_R2 demo_verify_R3 demo_find_2 demo_find_3
    by (simp add: demo_now_def)
qed

text \<open>
  Claim C4. A refresh token that verifies but whose session id names no stored session,
  or a stored session with \<open>expiresAt \<le> now\<close>, is refused with Unauthorized and the
  message \<^verbatim>\<open>Session expired\<close>, and the database is left as it was.
\<close>

theorem refreshUserAccessToken_session_expired:
  assumes "verifyToken caps tok RefreshTokenSecret = Some payload"
    and "find (\<lambda>x. s_id x = payload_sessionId payload) (sessions d) = None
         \<or> (\<exists>s. find (\<lambda>x. s_id x = payload_sessionId payload) (sessions d) = Some s
                \<and> s_expiresAt s \<le> now)"
  shows "refreshUserAccessToken caps d now tok
           = (Inl (AppError UNAUTHORIZED ''Session expired''), d)"
  using assms by (rule refresh_rejects)

theorem refreshUserAccessToken_session_expired_witness:
  "verifyToken demo_caps ''R4'' RefreshTokenSecret = Some (RefreshTokenPayload 4)
   \<and> find (\<lambda>x. s_id x = payload_sessionId (RefreshTokenPayload 4)) (sessions demo_db)
       = Some session_expired
   \<and> s_expiresAt session_expired \<le> demo_now
   \<and> refreshUserAccessToken demo_caps demo_db demo_now ''R4''
       = (Inl (AppError UNAUTHORIZED ''Session expired''), demo_db)
   \<and> verifyToken demo_caps ''R9'' RefreshTokenSecret = Some (RefreshTokenPayload 9)
   \<and> find (\<lambda>x. s_id x = payload_sessionId (RefreshTokenPayload 9)) (sessions demo_db) = None
   \<and> refreshUserAccessToken demo_caps demo_db demo_now ''R9''
       = (Inl (AppError UNAUTHORIZED ''Session expired''), demo_db)"
proof -
  have f4: "find (\<lambda>x. s_id x = payload_sessionId (RefreshTokenPayload 4)) (sessions demo_db)
              = Some session_expired"
    and e4: "s_expiresAt session_expired \<le> demo_now"
    and f9: "find (\<lambda>x. s_id x = payload_sessionId (RefreshTokenPayload 9)) (sessions demo_db)
              = None"
    by (simp_all add: demo_defs)
  show ?thesis
    using refreshUserAccessToken_session_expired [OF demo_verify_R4, of demo_db demo_now]
      refreshUserAccessToken_session_expired [OF demo_verify_R9, of demo_db demo_now]
      demo_verify_R4 demo_verify_R9 f4 e4 f9
    by simp
qed

lemma refresh_effect:
  "snd (refreshUserAccessToken caps d now tok) = d
   \<or> (\<exists>payload s pre post.
         verifyToken caps tok RefreshTokenSecret = Some payload
         \<and> s_id s = payload_sessionId payload
         \<and> now < s_expiresAt s \<and> s_expiresAt s - now \<le> 24 * 60 * 60 * 1000
         \<and> sessions d = pre @ s # post \<and> (\<forall>x \<in> set pre. s_id x \<noteq> s_id s)
         \<and> snd (refreshUserAccessToken caps d now tok)
             = d\<lparr>sessions := pre @ s\<lparr>s_expiresAt := now + 30 * 24 * 60 * 60 * 1000\<rparr> # post\<rparr>)"
proof (cases "verifyToken caps tok RefreshTokenSecret")
  case None
  then show ?thesis by (simp add: refreshUserAccessToken_def)
next
  case (Some payload)
  show ?thesis
  proof (cases "find (\<lambda>x. s_id x = payload_sessionId payload) (sessions d)")
    case None
    with Some show ?thesis by (simp add: refreshUserAccessToken_def)
  next
    case (Some s) note found = this
    then have sid: "s_id s = payload_sessionId payload"
      using find_Some_D by fastforce
    show ?thesis
    proof (cases "now < s_expiresAt s \<and> s_expiresAt s - now \<le> ONE_DAY_MS")
      case False
      with \<open>verifyToken caps tok RefreshTokenSecret = Some payload\<close> found show ?thesis
        by (auto simp add: refreshUserAccessToken_def Let_def)
    next
      case True
      from updateOne_split [OF found, of "\<lambda>x. x\<lparr>s_expiresAt := thirtyDaysFromNow now\<rparr>"]
      obtain pre post where pp: "sessions d = pre @ s # post"
        "\<forall>y \<in> set pre. s_id y \<noteq> payload_sessionId payload"
        "updateOne (\<lambda>x. s_id x = payload_sessionId payload)
           (\<lambda>x. x\<lparr>s_expiresAt := thirtyDaysFromNow now\<rparr>) (sessions d)
         = pre @ s\<lparr>s_expiresAt := thirtyDaysFromNow now\<rparr> # post"
        by blast
      have "snd (refreshUserAccessToken caps d now tok)
             = d\<lparr>sessions := pre @ s\<lparr>s_expiresAt := now + 30 * 24 * 60 * 60 * 1000\<rparr> # post\<rparr>"
        using refresh_accepts [OF \<open>verifyToken caps tok RefreshTokenSecret = Some payload\<close> found]
          True pp(3) sid
        by (simp add: thirtyDaysFromNow_def)
      with True pp sid \<open>verifyToken caps tok RefreshTokenSecret = Some payload\<close>
      show ?thesis
        by (intro disjI2 exI [of _ payload] exI [of _ s] exI [of _ pre] exI [of _ post])
           (simp add: ONE_DAY_MS_def)
    qed
  qed
qed

lemma refresh_failure_unchanged:
  "fst (refreshUserAccessToken caps d now tok) = Inl e
   \<Longrightarrow> snd (refreshUserAccessToken caps d now tok) = d"
  by (auto simp: refreshUserAccessToken_def Let_def split: option.splits if_splits)

text \<open>
  Claim C9. \<open>refreshUserAccessToken\<close> either leaves the database exactly as it was, or
  the token verifies, names a session \<open>s\<close> that is live with at most 24 hours left, and
  the database differs from the old one in the expiry of that one session, the first
  with that id, and in nothing else. A call that fails leaves the database as it was.
  In every case the users, the codes, the next id, and the ids and owners of the
  sessions are unchanged, so nothing is created or deleted.
\<close>

theorem refreshUserAccessToken_frame:
  "(snd (refreshUserAccessToken caps d now tok) = d
    \<or> (\<exists>payload s pre post.
         verifyToken caps tok RefreshTokenSecret = Some payload
         \<and> s_id s = payload_sessionId payload
         \<and> now < s_expiresAt s \<and> s_expiresAt s - now \<le> 24 * 60 * 60 * 1000
         \<and> sessions d = pre @ s # post \<and> (\<forall>x \<in> set pre. s_id x \<noteq> s_id s)
         \<and> snd (refreshUserAccessToken caps d now tok)
             = d\<lparr>sessions := pre @ s\<lparr>s_expiresAt := now + 30 * 24 * 60 * 60 * 1000\<rparr> # post\<rparr>))
   \<and> ((\<exists>e. fst (refreshUserAccessToken caps d now tok) = Inl e)
        \<longrightarrow> snd (refreshUserAccessToken caps d now tok) = d)
   \<and> users (snd (refreshUserAccessToken caps d now tok)) = users d
   \<and> codes (snd (refreshUserAccessToken caps d now tok)) = codes d
   \<and> nextId (snd (refreshUserAccessToken caps d now tok)) = nextId d
   \<and> map s_id (sessions (snd (refreshUserAccessToken caps d now tok))) = map s_id (sessions d)
   \<and> map s_userId (sessions (snd (refreshUserAccessToken caps d now tok)))
       = map s_userId (sessions d)"
proof -
  let ?d' = "snd (refreshUserAccessToken caps d now tok)"
  have fail: "(\<exists>e. fst (refreshUserAccessToken caps d now tok) = Inl e) \<longrightarrow> ?d' = d"
    using refresh_failure_unchanged by blast
  have rest: "users ?d' = users d \<and> codes ?d' = codes d \<and> nextId ?d' = nextId d
      \<and> map s_id (sessions ?d') = map s_id (sessions d)
      \<and> map s_userId (sessions ?d') = map s_userId (sessions d)"
    using refresh_effect [of caps d now tok] by (elim disjE exE conjE) simp_all
  show ?thesis
    using refresh_effect [of caps d now tok] fail rest by blast
qed

theorem refreshUserAccessToken_frame_witness:
  "fst (refreshUserAccessToken demo_caps demo_db demo_now ''R4'')
     = Inl (AppError UNAUTHORIZED ''Session expired'')
   \<and> snd (refreshUserAccessToken demo_caps demo_db demo_now ''R4'') = demo_db
   \<and> snd (refreshUserAccessToken demo_caps demo_db demo_now ''R2'')
       = demo_db\<lparr>sessions := [session_23h\<lparr>s_expiresAt := 1702592000000\<rparr>,
                               session_48h, session_expired]\<rparr>
   \<and> users (snd (refreshUserAccessToken demo_caps demo_db demo_now ''R2'')) = users demo_db
   \<and> codes (snd (refreshUserAccessToken demo_caps demo_db demo_now ''R2'')) = codes demo_db"
proof -
  have a: "fst (refreshUserAccessToken demo_caps demo_db demo_now ''R4'')
     = Inl (AppError UNAUTHORIZED ''Session expired'')"
    by code_simp
  have b: "snd (refreshUserAccessToken demo_caps demo_db demo_now ''R2'')
       = demo_db\<lparr>sessions := [session_23h\<lparr>s_expiresAt := 1702592000000\<rparr>,
                               session_48h, session_expired]\<rparr>"
    by code_simp
  show ?thesis
    using refreshUserAccessToken_frame [of demo_caps demo_db demo_now "''R4''"]
      refreshUserAccessToken_frame [of demo_caps demo_db demo_now "''R2''"] a b
    by simp
qed

subsection \<open>Email verification\<close>

text \<open>
  Claim C5. In a collection of codes with unique ids, a call of \<open>verifyEmail\<close> that
  succeeds removes the code with that id, and only it, from the store; a second call
  with the same id, at any time, fails with NotFound and the message
  \<^verbatim>\<open>Invalid or expired verification code\<close>.
\<close>

theorem verifyEmail_code_single_use:
  assumes "distinct (map c_id (codes d))"
    and "verifyEmail d now code = (Inr v, d')"
  shows "codes d' = filter (\<lambda>c. c_id c \<noteq> code) (codes d)
       \<and> (\<forall>c \<in> set (codes d'). c_id c \<noteq> code)
       \<and> verifyEmail d' now' code
           = (Inl (AppError NOT_FOUND ''Invalid or expired verification code''), d')"
proof -
  from assms(2) obtain validCode where
    found: "find (\<lambda>c. c_id c = code \<and> c_type c = EmailVerification \<and> c_expiresAt c > now)
              (codes d) = Some validCode"
    and cs: "codes d' = deleteOne (\<lambda>c. c_id c = c_id validCode) (codes d)"
    by (auto simp: verifyEmail_def split: option.splits prod.splits)
  from found have "c_id validCode = code"
    using find_Some_D by fastforce
  with cs assms(1) have del: "codes d' = filter (\<lambda>c. c_id c \<noteq> code) (codes d)"
    by (simp add: deleteOne_distinct)
  then have none: "\<forall>c \<in> set (codes d'). c_id c \<noteq> code"
    by simp
  then have "find (\<lambda>c. c_id c = code \<and> c_type c = EmailVerification \<and> c_expiresAt c > now')
               (codes d') = None"
    by (auto simp: find_None_iff)
  then have "verifyEmail d' now' code
           = (Inl (AppError NOT_FOUND ''Invalid or expired verification code''), d')"
    by (simp add: verifyEmail_def)
  with del none show ?thesis by simp
qed

theorem verifyEmail_code_single_use_witness:
  "distinct (map c_id (codes demo_db))
   \<and> verifyEmail demo_db demo_now 5
       = (Inr (JObj [(''user'',
                      JObj [(''_id'', JId 1), (''email'', JStr ''a@x.com''),
                            (''verified'', JBool True), (''createdAt'', JDate 1690000000000)])]),
          verified_db)
   \<and> codes verified_db = [reset_code]
   \<and> verifyEmail verified_db 1700000001000 5
       = (Inl (AppError NOT_FOUND ''Invalid or expired verification code''), verified_db)"
proof -
  have h: "distinct (map c_id (codes demo_db))"
    by (simp add: demo_defs)
  have r: "verifyEmail demo_db demo_now 5
       = (Inr (JObj [(''user'',
                      JObj [(''_id'', JId 1), (''email'', JStr ''a@x.com''),
                            (''verified'', JBool True), (''createdAt'', JDate 1690000000000)])]),
          verified_db)"
    by code_simp
  have c: "codes verified_db = [reset_code]"
    by (simp add: verified_db_def)
  show ?thesis
    using verifyEmail_code_single_use [OF h r, of 1700000001000] h r c by simp
qed

subsection \<open>Password-reset request\<close>

lemma sendPasswordResetEmail_try_unfold:
  "sendPasswordResetEmail_try caps d now email =
     (case rejects caps Await_findOne of
        Some r \<Rightarrow> (Inl (Rejected r), d)
      | None \<Rightarrow>
     (case find (\<lambda>u. u_email u = email) (users d) of
        None \<Rightarrow> (Inl (AppError NOT_FOUND ''User not found''), d)
      | Some u \<Rightarrow>
     (case rejects caps Await_countDocuments of
        Some r \<Rightarrow> (Inl (Rejected r), d)
      | None \<Rightarrow>
          if \<not> countDocuments (\<lambda>c. c_userId c = u_id u \<and> c_type c = PasswordReset
                                   \<and> c_createdAt c > now - 5 * 60 * 1000) (codes d) \<le> 1
          then (Inl (AppError TOO_MANY_REQUESTS ''Too many requests, please try again later''), d)
          else
     (case rejects caps Await_create of
        Some r \<Rightarrow> (Inl (Rejected r), d)
      | None \<Rightarrow>
            let url = APP_ORIGIN caps @ ''/password/reset?code=''
                        @ objectIdToString caps (nextId d)
                        @ ''&exp='' @ show_int (now + 60 * 60 * 1000);
                mailed = sendMail caps email (getPasswordResetTemplate caps url);
                d1 = d\<lparr>codes := codes d @
                          [\<lparr>c_id = nextId d, c_userId = u_id u, c_type = PasswordReset,
                            c_expiresAt = now + 60 * 60 * 1000, c_createdAt = now\<rparr>],
                       nextId := Suc (nextId d)\<rparr>
            in
     (case rejects caps Await_sendMail of
        Some r \<Rightarrow> (Inl (Rejected r), d1)
      | None \<Rightarrow>
               if (\<exists>i. mail_data_id mailed = Some i \<and> i \<noteq> [])
               then (Inr (JObj [(''url'', JStr url),
                                (''emailId'', JStr (the (mail_data_id mailed)))]), d1)
               else (Inl (AppError INTERNAL_SERVER_ERROR
                            (case mail_error mailed of
                               None \<Rightarrow> ''undefined - undefined''
                             | Some e \<Rightarrow> err_name e @ '' - '' @ err_message e)), d1))))))"
  by (simp add: sendPasswordResetEmail_try_def VerificationCodeModel_create_def Let_def
      fiveMinutesAgo_def oneHourFromNow_def split: option.splits)

lemma sendPasswordResetEmail_snd:
  "snd (sendPasswordResetEmail caps d now email)
     = snd (sendPasswordResetEmail_try caps d now email)"
  by (simp add: sendPasswordResetEmail_def split: prod.splits sum.splits)

lemma sendPasswordResetEmail_fst:
  "fst (sendPasswordResetEmail caps d now email) = Inr v
   \<Longrightarrow> v = JObj [] \<or> fst (sendPasswordResetEmail_try caps d now email) = Inr v"
  by (auto simp add: sendPasswordResetEmail_def split: prod.splits sum.splits)


text \<open>
  The two branches on the count, when the lookups and the creation do not reject: with
  two or more recent reset codes of the user in the store the \<^verbatim>\<open>try\<close> block throws
  TooManyRequests and stores nothing; with at most one it stores a new code of type
  PasswordReset that expires in an hour.
\<close>

lemma sendPasswordResetEmail_count_branches:
  assumes "find (\<lambda>u. u_email u = email) (users d) = Some u"
    and "rejects caps Await_findOne = None" and "rejects caps Await_countDocuments = None"
  shows "2 \<le> countDocuments (\<lambda>c. c_userId c = u_id u \<and> c_type c = PasswordReset
                                   \<and> c_createdAt c > now - 5 * 60 * 1000) (codes d)
          \<Longrightarrow> sendPasswordResetEmail_try caps d now email
                = (Inl (AppError TOO_MANY_REQUESTS
                          ''Too many requests, please try again later''), d)"
    and "countDocuments (\<lambda>c. c_userId c = u_id u \<and> c_type c = PasswordReset
                                   \<and> c_createdAt c > now - 5 * 60 * 1000) (codes d) \<le> 1
          \<Longrightarrow> rejects caps Await_create = None
          \<Longrightarrow> codes (snd (sendPasswordResetEmail caps d now email))
                = codes d @ [\<lparr>c_id = nextId d, c_userId = u_id u, c_type = PasswordReset,
                               c_expiresAt = now + 60 * 60 * 1000, c_createdAt = now\<rparr>]"
  using assms
  by (simp_all add: sendPasswordResetEmail_snd sendPasswordResetEmail_try_unfold Let_def
      split: option.splits)

text \<open>
  Claim C6. The claim, with the comment in the source (\<^verbatim>\<open>2 emails in 5min\<close>), asks that
  at most two reset codes be issued to a user in any 5 minutes and that a third request
  in the window create no code. Evaluated on a history of three requests for one user
  within three seconds, the first code being used to reset the password after the
  second request: the used code is deleted and no longer counted, so the third request
  finds one recent code, stores a third code and mails its url.
\<close>

theorem reset_codes_third_in_window:
  "codes (run demo_caps demo_db (take 2 reset_history))
     = [email_code, reset_code,
        \<lparr>c_id = 7, c_userId = 1, c_type = PasswordReset,
          c_expiresAt = 1700003600000, c_createdAt = 1700000000000\<rparr>,
        \<lparr>c_id = 8, c_userId = 1, c_type = PasswordReset,
          c_expiresAt = 1700003601000, c_createdAt = 1700000001000\<rparr>]
   \<and> codes (run demo_caps demo_db (take 3 reset_history))
     = [email_code, reset_code,
        \<lparr>c_id = 8, c_userId = 1, c_type = PasswordReset,
          c_expiresAt = 1700003601000, c_createdAt = 1700000001000\<rparr>]
   \<and> perform demo_caps (run demo_caps demo_db (take 3 reset_history)) 1700000003000
        (SendPasswordResetEmail ''a@x.com'')
     = (Inr (JObj [(''url'',
                    JStr ''http://localhost:5173/password/reset?code=9&exp=1700003603000''),
                   (''emailId'', JStr ''mail-1'')]),
        run demo_caps demo_db reset_history)
   \<and> codes (run demo_caps demo_db reset_history)
     = [email_code, reset_code,
        \<lparr>c_id = 8, c_userId = 1, c_type = PasswordReset,
          c_expiresAt = 1700003601000, c_createdAt = 1700000001000\<rparr>,
        \<lparr>c_id = 9, c_userId = 1, c_type = PasswordReset,
          c_expiresAt = 1700003603000, c_createdAt = 1700000003000\<rparr>]"
  by code_simp




subsection \<open>No password in a returned value\<close>

lemma omitPassword_no_password: "\<not> has_field ''password'' (omitPassword u)"
  by (simp add: omitPassword_def toObject_def)

text \<open>
  Claim C8. Whatever one of the six operations returns on success has no field named
  \<^verbatim>\<open>password\<close>, neither in the object itself nor in the user object inside it.
\<close>

theorem returned_value_has_no_password:
  "fst (perform caps d now c) = Inr v \<Longrightarrow> \<not> has_field ''password'' v"
proof (cases c)
  case (CreateAccount p)
  then show "fst (perform caps d now c) = Inr v \<Longrightarrow> \<not> has_field ''password'' v"
    by (auto simp: createAccount_def Let_def omitPassword_no_password split: if_splits prod.splits)
next
  case (LoginUser p)
  then show "fst (perform caps d now c) = Inr v \<Longrightarrow> \<not> has_field ''password'' v"
    by (auto simp: loginUser_def Let_def omitPassword_no_password split: option.splits prod.splits)
next
  case (RefreshUserAccessToken t)
  then show "fst (perform caps d now c) = Inr v \<Longrightarrow> \<not> has_field ''password'' v"
    by (auto simp: refreshUserAccessToken_def Let_def split: option.splits if_splits)
next
  case (VerifyEmail x)
  then show "fst (perform caps d now c) = Inr v \<Longrightarrow> \<not> has_field ''password'' v"
    by (auto simp: verifyEmail_def omitPassword_no_password split: option.splits prod.splits)
next
  case (SendPasswordResetEmail e)
  then show "fst (perform caps d now c) = Inr v \<Longrightarrow> \<not> has_field ''password'' v"
    by (auto simp: sendPasswordResetEmail_try_unfold Let_def
        dest!: sendPasswordResetEmail_fst split: option.splits if_splits)
next
  case (ResetPassword p)
  then show "fst (perform caps d now c) = Inr v \<Longrightarrow> \<not> has_field ''password'' v"
    by (auto simp: resetPassword_def omitPassword_no_password split: option.splits prod.splits)
qed

theorem returned_value_has_no_password_witness:
  "fst (perform demo_caps demo_db demo_now
          (LoginUser \<lparr>p_email = ''a@x.com'', p_password = ''pw1'', p_userAgent = None\<rparr>))
     = Inr (JObj [(''user'',
                      JObj [(''_id'', JId 1), (''email'', JStr ''a@x.com''),
                            (''verified'', JBool False), (''createdAt'', JDate 1690000000000)]),
                     (''accessToken'', JStr ''A1.7''),
                     (''refreshToken'', JStr ''R7'')])
   \<and> \<not> has_field ''password''
         (JObj [(''user'',
                      JObj [(''_id'', JId 1), (''email'', JStr ''a@x.com''),
                            (''verified'', JBool False), (''createdAt'', JDate 1690000000000)]),
                     (''accessToken'', JStr ''A1.7''),
                     (''refreshToken'', JStr ''R7'')])
   \<and> has_field ''password'' (JObj (toObject alice))"
proof -
  have a: "fst (perform demo_caps demo_db demo_now
          (LoginUser \<lparr>p_email = ''a@x.com'', p_password = ''pw1'', p_userAgent = None\<rparr>))
     = Inr (JObj [(''user'',
                      JObj [(''_id'', JId 1), (''email'', JStr ''a@x.com''),
                            (''verified'', JBool False), (''createdAt'', JDate 1690000000000)]),
                     (''accessToken'', JStr ''A1.7''),
                     (''refreshToken'', JStr ''R7'')])"
    by code_simp
  have b: "has_field ''password'' (JObj (toObject alice))"
    by (simp add: toObject_def)
  show ?thesis
    using returned_value_has_no_password [OF a] a b by simp
qed

subsection \<open>Ids stay unique\<close>

lemma empty_db_fresh:
  "session_ids_fresh \<lparr>users = [], sessions = [], codes = [], nextId = 0\<rparr>"
  "code_ids_fresh \<lparr>users = [], sessions = [], codes = [], nextId = 0\<rparr>"
  by (simp_all add: session_ids_fresh_def code_ids_fresh_def)

lemma perform_codes_effect:
  "nextId d \<le> nextId (snd (perform caps d now c))
   \<and> (codes (snd (perform caps d now c)) = codes d
      \<or> (\<exists>new. codes (snd (perform caps d now c)) = codes d @ [new]
             \<and> nextId d \<le> c_id new \<and> c_id new < nextId (snd (perform caps d now c)))
      \<or> (\<exists>P. codes (snd (perform caps d now c)) = deleteOne P (codes d)))"
proof (cases c)
  case (CreateAccount p)
  then show ?thesis
    by (simp add: createAccount_def Let_def UserModel_create_def SessionModel_create_def
        VerificationCodeModel_create_def)
next
  case (LoginUser p)
  then show ?thesis
    by (simp add: loginUser_def Let_def SessionModel_create_def split: option.splits)
next
  case (RefreshUserAccessToken t)
  then show ?thesis
    using refresh_effect [of caps d now t] by (elim disjE exE conjE) simp_all
next
  case (VerifyEmail x)
  then show ?thesis
    by (auto simp add: verifyEmail_def split: option.splits prod.splits)
next
  case (SendPasswordResetEmail e)
  then show ?thesis
    by (simp add: sendPasswordResetEmail_snd sendPasswordResetEmail_try_unfold Let_def
        split: option.splits)
next
  case (ResetPassword p)
  then show ?thesis
    by (auto simp add: resetPassword_def split: option.splits prod.splits)
qed

lemma perform_code_ids_fresh:
  assumes "code_ids_fresh d"
  shows "code_ids_fresh (snd (perform caps d now c))"
proof -
  let ?d' = "snd (perform caps d now c)"
  from perform_codes_effect [of d caps now c] have le: "nextId d \<le> nextId ?d'"
    by simp
  from perform_codes_effect [of d caps now c] consider
    (same) "codes ?d' = codes d"
    | (new) new where "codes ?d' = codes d @ [new]" "nextId d \<le> c_id new"
        "c_id new < nextId ?d'"
    | (del) P where "codes ?d' = deleteOne P (codes d)"
    by blast
  then show ?thesis
  proof cases
    case same
    with assms le show ?thesis by (auto simp: code_ids_fresh_def)
  next
    case new
    with assms le show ?thesis by (auto simp: code_ids_fresh_def)
  next
    case del
    have "distinct (map c_id (codes ?d'))"
      using assms del by (simp add: code_ids_fresh_def distinct_map_deleteOne)
    moreover have "\<forall>x \<in> set (codes ?d'). c_id x < nextId ?d'"
    proof
      fix x assume "x \<in> set (codes ?d')"
      with del have "x \<in> set (codes d)"
        using set_deleteOne [of P "codes d"] by auto
      with assms have "c_id x < nextId d"
        by (simp add: code_ids_fresh_def)
      with le show "c_id x < nextId ?d'" by simp
    qed
    ultimately show ?thesis by (simp add: code_ids_fresh_def)
  qed
qed

lemma run_code_ids_fresh: "code_ids_fresh d \<Longrightarrow> code_ids_fresh (run caps d tcs)"
proof (induction tcs arbitrary: d)
  case Nil
  then show ?case by simp
next
  case (Cons tc tcs)
  then show ?case
    using perform_code_ids_fresh by simp
qed

lemma refresh_sessions_effect:
  "nextId (snd (refreshUserAccessToken caps d now t)) = nextId d
   \<and> (sessions (snd (refreshUserAccessToken caps d now t)) = sessions d
    \<or> (\<exists>s pre post e. now < s_expiresAt s
             \<and> sessions d = pre @ s # post \<and> (\<forall>x \<in> set pre. s_id x \<noteq> s_id s)
             \<and> sessions (snd (refreshUserAccessToken caps d now t))
                 = pre @ s\<lparr>s_expiresAt := e\<rparr> # post))"
  using refresh_effect [of caps d now t]
proof (elim disjE exE conjE)
  assume "snd (refreshUserAccessToken caps d now t) = d"
  then show ?thesis by simp
next
  fix payload s pre post
  assume "now < s_expiresAt s" "sessions d = pre @ s # post" "\<forall>x \<in> set pre. s_id x \<noteq> s_id s"
    and "snd (refreshUserAccessToken caps d now t)
          = d\<lparr>sessions := pre @ s\<lparr>s_expiresAt := now + 30 * 24 * 60 * 60 * 1000\<rparr> # post\<rparr>"
  then have "nextId (snd (refreshUserAccessToken caps d now t)) = nextId d"
    and "now < s_expiresAt s
             \<and> sessions d = pre @ s # post \<and> (\<forall>x \<in> set pre. s_id x \<noteq> s_id s)
             \<and> sessions (snd (refreshUserAccessToken caps d now t))
                 = pre @ s\<lparr>s_expiresAt := now + 30 * 24 * 60 * 60 * 1000\<rparr> # post"
    by simp_all
  then show ?thesis by blast
qed

lemma perform_sessions_step: "sessions_step now d (snd (perform caps d now c))"
proof (cases c)
  case (CreateAccount p)
  then show ?thesis
    by (simp add: sessions_step_def createAccount_def Let_def UserModel_create_def
        SessionModel_create_def VerificationCodeModel_create_def)
next
  case (LoginUser p)
  then show ?thesis
    by (simp add: sessions_step_def loginUser_def Let_def SessionModel_create_def
        split: option.splits)
next
  case (RefreshUserAccessToken t)
  then show ?thesis
    using refresh_sessions_effect [of caps d now t]
    unfolding sessions_step_def perform.simps by (elim conjE disjE) simp_all
next
  case (VerifyEmail x)
  then show ?thesis
    by (simp add: sessions_step_def verifyEmail_def split: option.splits prod.splits)
next
  case (SendPasswordResetEmail e)
  then show ?thesis
    by (simp add: sessions_step_def sendPasswordResetEmail_snd
        sendPasswordResetEmail_try_unfold Let_def split: option.splits)
next
  case (ResetPassword p)
  then show ?thesis
    by (auto simp add: sessions_step_def resetPassword_def deleteMany_def
        split: option.splits prod.splits)
qed

lemma sessions_step_fresh:
  assumes "sessions_step now d d'" and "session_ids_fresh d"
  shows "session_ids_fresh d'"
proof -
  from assms(1) have le: "nextId d \<le> nextId d'"
    by (simp add: sessions_step_def)
  from assms(1) consider
    (same) "sessions d' = sessions d"
    | (new) new where "sessions d' = sessions d @ [new]" "nextId d \<le> s_id new"
        "s_id new < nextId d'"
    | (del) uid where "sessions d' = filter (\<lambda>s. s_userId s \<noteq> uid) (sessions d)"
    | (upd) s pre post e where "sessions d = pre @ s # post"
        "sessions d' = pre @ s\<lparr>s_expiresAt := e\<rparr> # post"
    unfolding sessions_step_def by blast
  then show ?thesis
  proof cases
    case same
    with assms(2) le show ?thesis by (auto simp: session_ids_fresh_def)
  next
    case new
    with assms(2) le show ?thesis by (auto simp: session_ids_fresh_def)
  next
    case del
    have "distinct (map s_id (sessions d'))"
      using assms(2) del by (simp add: session_ids_fresh_def distinct_map_filter)
    moreover have "\<forall>x \<in> set (sessions d'). s_id x < nextId d'"
      using assms(2) del le by (auto simp: session_ids_fresh_def)
    ultimately show ?thesis by (simp add: session_ids_fresh_def)
  next
    case upd
    have "map s_id (sessions d') = map s_id (sessions d)"
      using upd by simp
    moreover have "\<forall>x \<in> set (sessions d). s_id x < nextId d'"
      using assms(2) le by (auto simp: session_ids_fresh_def)
    then have "\<forall>i \<in> set (map s_id (sessions d)). i < nextId d'"
      by simp
    ultimately have "distinct (map s_id (sessions d'))"
      and "\<forall>i \<in> set (map s_id (sessions d')). i < nextId d'"
      using assms(2) by (simp_all add: session_ids_fresh_def)
    then show ?thesis by (simp add: session_ids_fresh_def)
  qed
qed

lemma run_session_ids_fresh: "session_ids_fresh d \<Longrightarrow> session_ids_fresh (run caps d tcs)"
proof (induction tcs arbitrary: d)
  case Nil
  then show ?case by simp
next
  case (Cons tc tcs)
  then show ?case
    using sessions_step_fresh [OF perform_sessions_step] by simp
qed

subsection \<open>Expired sessions\<close>

lemma sessions_step_pinned:
  assumes "sessions_step now d d'" and "pinned s d" and "s_expiresAt s \<le> now"
  shows "pinned s d'"
proof -
  from assms(1) have le: "nextId d \<le> nextId d'"
    by (simp add: sessions_step_def)
  have fresh': "session_ids_fresh d'"
    using sessions_step_fresh [OF assms(1)] assms(2) by (simp add: pinned_def)
  from assms(2) have k: "s_id s < nextId d"
    and same_k: "\<forall>x \<in> set (sessions d). s_id x = s_id s \<longrightarrow> x = s"
    by (simp_all add: pinned_def)
  from assms(1) consider
    (same) "sessions d' = sessions d"
    | (new) new where "sessions d' = sessions d @ [new]" "nextId d \<le> s_id new"
    | (del) uid where "sessions d' = filter (\<lambda>s. s_userId s \<noteq> uid) (sessions d)"
    | (upd) x pre post e where "now < s_expiresAt x" "sessions d = pre @ x # post"
        "sessions d' = pre @ x\<lparr>s_expiresAt := e\<rparr> # post"
    unfolding sessions_step_def by blast
  then have "\<forall>x \<in> set (sessions d'). s_id x = s_id s \<longrightarrow> x = s"
  proof cases
    case same
    with same_k show ?thesis by simp
  next
    case new
    with same_k k show ?thesis by auto
  next
    case del
    with same_k show ?thesis by auto
  next
    case upd
    have "s_id x \<noteq> s_id s"
    proof
      assume "s_id x = s_id s"
      with same_k upd(2) have "x = s" by simp
      with upd(1) assms(3) show False by simp
    qed
    with same_k upd show ?thesis by auto
  qed
  with fresh' k le show ?thesis by (simp add: pinned_def)
qed

lemma run_pinned:
  "pinned s d \<Longrightarrow> s_expiresAt s \<le> t0 \<Longrightarrow> \<forall>tc \<in> set tcs. t0 \<le> fst tc
   \<Longrightarrow> pinned s (run caps d tcs)"
proof (induction tcs arbitrary: d)
  case Nil
  then show ?case by simp
next
  case (Cons tc tcs)
  have "s_expiresAt s \<le> fst tc"
    using Cons.prems by simp
  then have "pinned s (snd (perform caps d (fst tc) (snd tc)))"
    using sessions_step_pinned [OF perform_sessions_step] Cons.prems(1) by blast
  then show ?case
    using Cons.IH Cons.prems by simp
qed

lemma pinned_refresh_refused:
  assumes "pinned s d" and "s_expiresAt s \<le> now"
    and "verifyToken caps tok RefreshTokenSecret = Some payload"
    and "payload_sessionId payload = s_id s"
  shows "refreshUserAccessToken caps d now tok
           = (Inl (AppError UNAUTHORIZED ''Session expired''), d)"
proof (cases "find (\<lambda>x. s_id x = payload_sessionId payload) (sessions d)")
  case None
  show ?thesis
    by (rule refresh_rejects [OF assms(3) disjI1 [OF None]])
next
  case (Some x)
  then have "x \<in> set (sessions d)" "s_id x = s_id s"
    using find_Some_D [OF Some] assms(4) by simp_all
  with assms(1) have "x = s" by (simp add: pinned_def)
  with Some assms(2) have "\<exists>s. find (\<lambda>x. s_id x = payload_sessionId payload) (sessions d) = Some s
                \<and> s_expiresAt s \<le> now"
    by blast
  then show ?thesis
    by (rule refresh_rejects [OF assms(3) disjI2])
qed

text \<open>
  Claim C10. Let the session ids be unique and below the next id, and let \<open>s\<close> be a
  stored session with \<open>expiresAt \<le> t0\<close>. After any history of calls of the six
  operations made at times from \<open>t0\<close> on, whatever session is stored under the id of
  \<open>s\<close> is \<open>s\<close> itself, with the expiry it had (password-reset completion may have
  deleted it), and a refresh with a token for that id is still refused with
  Unauthorized and \<^verbatim>\<open>Session expired\<close>.
\<close>

theorem expired_session_never_revived:
  assumes "session_ids_fresh d" and "s \<in> set (sessions d)"
    and "s_expiresAt s \<le> t0" and "\<forall>tc \<in> set tcs. t0 \<le> fst tc"
  shows "(\<forall>x \<in> set (sessions (run caps d tcs)). s_id x = s_id s \<longrightarrow> x = s)
       \<and> (\<forall>now tok payload. t0 \<le> now
             \<and> verifyToken caps tok RefreshTokenSecret = Some payload
             \<and> payload_sessionId payload = s_id s
           \<longrightarrow> refreshUserAccessToken caps (run caps d tcs) now tok
                 = (Inl (AppError UNAUTHORIZED ''Session expired''), run caps d tcs))"
proof -
  have "pinned s d"
    using assms(1,2) unfolding pinned_def session_ids_fresh_def
    by (auto simp: distinct_map inj_on_def)
  then have p: "pinned s (run caps d tcs)"
    using run_pinned assms(3,4) by blast
  then have "\<forall>x \<in> set (sessions (run caps d tcs)). s_id x = s_id s \<longrightarrow> x = s"
    by (simp add: pinned_def)
  moreover have "refreshUserAccessToken caps (run caps d tcs) now tok
                 = (Inl (AppError UNAUTHORIZED ''Session expired''), run caps d tcs)"
    if "t0 \<le> now" "verifyToken caps tok RefreshTokenSecret = Some payload"
      "payload_sessionId payload = s_id s" for now tok payload
    using pinned_refresh_refused [OF p _ that(2,3)] that(1) assms(3) by simp
  ultimately show ?thesis by blast
qed

theorem expired_session_never_revived_witness:
  "session_ids_fresh demo_db
   \<and> session_expired \<in> set (sessions demo_db)
   \<and> s_expiresAt session_expired \<le> demo_now
   \<and> list_all (\<lambda>tc. demo_now \<le> fst tc) expiry_history
   \<and> sessions (run demo_caps demo_db expiry_history)
       = [session_23h\<lparr>s_expiresAt := 1702592002000\<rparr>, session_48h, session_expired,
          \<lparr>s_id = 7, s_userId = 1, s_userAgent = None,
            s_expiresAt = 1702592001000, s_createdAt = 1700000001000\<rparr>]
   \<and> filter (\<lambda>x. s_id x = s_id session_expired)
         (sessions (run demo_caps demo_db expiry_history)) = [session_expired]
   \<and> refreshUserAccessToken demo_caps (run demo_caps demo_db expiry_history)
        1700000004000 ''R4''
       = (Inl (AppError UNAUTHORIZED ''Session expired''),
          run demo_caps demo_db expiry_history)"
proof -
  have h: "session_ids_fresh demo_db" "session_expired \<in> set (sessions demo_db)"
    "s_expiresAt session_expired \<le> demo_now"
    by (simp_all add: session_ids_fresh_def demo_defs)
  have t: "\<forall>tc \<in> set expiry_history. demo_now \<le> fst tc"
    by (simp add: expiry_history_def demo_now_def)
  have r: "sessions (run demo_caps demo_db expiry_history)
       = [session_23h\<lparr>s_expiresAt := 1702592002000\<rparr>, session_48h, session_expired,
          \<lparr>s_id = 7, s_userId = 1, s_userAgent = None,
            s_expiresAt = 1702592001000, s_createdAt = 1700000001000\<rparr>]"
    by code_simp
  have p: "payload_sessionId (RefreshTokenPayload 4) = s_id session_expired"
    "demo_now \<le> 1700000004000"
    by (simp_all add: demo_defs)
  have f: "filter (\<lambda>x. s_id x = s_id session_expired)
         (sessions (run demo_caps demo_db expiry_history)) = [session_expired]"
    unfolding r by (simp add: demo_defs)
  from expired_session_never_revived [OF h t, of demo_caps]
  have "refreshUserAccessToken demo_caps (run demo_caps demo_db expiry_history)
        1700000004000 ''R4''
       = (Inl (AppError UNAUTHORIZED ''Session expired''),
          run demo_caps demo_db expiry_history)"
    using demo_verify_R4 p by blast
  with h t r f show ?thesis by (simp add: list_all_iff)
qed

end
